theory Spec2Isabelle
  imports Main
begin

section \<open>Constants of definitions.h and the error kinds of error_handler.h\<close>

definition MAX_LINE_LENGTH :: nat where
  "MAX_LINE_LENGTH = 80"

definition MAX_LABEL_LENGTH :: nat where
  "MAX_LABEL_LENGTH = 30"

datatype ErrorType =
    ERROR_NONE
  | ERROR_FILE_OPEN_FAILED
  | ERROR_LINE_TOO_LONG
  | ERROR_EMPTY_OR_COMMENT_FILE
  | ERROR_MACRO_NAME_RESERVED_KEYWORD
  | ERROR_MACRO_NAME_INVALID_FORMAT
  | ERROR_MACRO_DEFINITION_SYNTAX
  | ERROR_NESTED_MACRO_DEFINITION
  | ERROR_UNEXPECTED_MACRO_END
  | ERROR_UNCLOSED_MACRO_DEFINITION
  | ERROR_LABEL_REDEFINITION
  | ERROR_LABEL_RESERVED_KEYWORD
  | ERROR_LABEL_INVALID_FORMAT
  | ERROR_ENTRY_EXTERN_CONFLICT
  | ERROR_UNDEFINED_LABEL
  | ERROR_ENTRY_UNDEFINED_SYMBOL
  | ERROR_UNKNOWN_OPERATION
  | ERROR_ILLEGAL_OPERAND_COUNT
  | ERROR_INVALID_ADDRESSING_METHOD
  | ERROR_INVALID_IMMEDIATE_VALUE
  | ERROR_MISSING_QUOTES_STRING
  | ERROR_DATA_DIRECTIVE_SYNTAX
  | ERROR_MATRIX_INDEX_SYNTAX
  | ERROR_REGISTER_OUT_OF_RANGE
  | ERROR_MEMORY_OVERFLOW
  | ERROR_GENERIC_SYNTAX_ERROR
  | ERROR_INTERNAL_ERROR

text \<open>
  error_handler.c keeps one flag, set by every \<open>report_error\<close> and cleared by
  \<open>reset_error_flag\<close>, and prints one record per report. The model keeps the printed
  records, a list of (line number, error kind) in the order of the reports; the flag is
  set exactly when the list is not empty.
\<close>

type_synonym diagnostics = "(nat \<times> ErrorType) list"

definition report_error :: "nat \<Rightarrow> ErrorType \<Rightarrow> diagnostics \<Rightarrow> diagnostics" where
  "report_error line_number error_type errs = errs @ [(line_number, error_type)]"

definition has_errors :: "diagnostics \<Rightarrow> bool" where
  "has_errors errs = (errs \<noteq> [])"

section \<open>utils.c\<close>

text \<open>
  A C string is a \<open>string\<close> without the terminating NUL. The program never calls
  \<open>setlocale\<close>, so \<open>isalpha\<close>, \<open>isalnum\<close> and \<open>isspace\<close> are those of the
  C locale, on the character taken as unsigned char.
\<close>

definition opcode_names :: "string list" where
  "opcode_names = [''mov'', ''cmp'', ''add'', ''sub'', ''not'', ''clr'', ''lea'', ''inc'',
                   ''dec'', ''jmp'', ''bne'', ''red'', ''prn'', ''jsr'', ''rts'', ''stop'']"

definition directive_names :: "string list" where
  "directive_names = [''.data'', ''.string'', ''.mat'', ''.entry'', ''.extern'']"

definition register_names :: "string list" where
  "register_names = [''r0'', ''r1'', ''r2'', ''r3'', ''r4'', ''r5'', ''r6'', ''r7'']"

definition is_upper_c :: "char \<Rightarrow> bool" where
  "is_upper_c c = (65 \<le> (of_char c :: nat) \<and> (of_char c :: nat) \<le> 90)"

definition is_lower_c :: "char \<Rightarrow> bool" where
  "is_lower_c c = (97 \<le> (of_char c :: nat) \<and> (of_char c :: nat) \<le> 122)"

definition is_digit_c :: "char \<Rightarrow> bool" where
  "is_digit_c c = (48 \<le> (of_char c :: nat) \<and> (of_char c :: nat) \<le> 57)"

definition is_alpha :: "char \<Rightarrow> bool" where
  "is_alpha c = (is_upper_c c \<or> is_lower_c c)"

definition is_alphanumeric :: "char \<Rightarrow> bool" where
  "is_alphanumeric c = ((is_alpha c \<or> is_digit_c c) \<or> c = CHR ''_'')"

definition is_whitespace :: "char \<Rightarrow> bool" where
  "is_whitespace c = (c = CHR '' '' \<or> c = CHR 0x09 \<or> c = CHR 0x0A \<or> c = CHR 0x0B
                      \<or> c = CHR 0x0C \<or> c = CHR 0x0D)"

text \<open>
  \<open>trim_whitespace\<close> moves past the leading whitespace, writes a NUL after the last
  character that is not whitespace, and returns the moved pointer. A string of
  whitespace only is returned at its end, with nothing written.
\<close>

definition trim_whitespace :: "string \<Rightarrow> string" where
  "trim_whitespace str =
     (let s = dropWhile is_whitespace str
      in if s = [] then s else rev (dropWhile is_whitespace (rev s)))"

definition skip_whitespace :: "string \<Rightarrow> string" where
  "skip_whitespace str = dropWhile is_whitespace str"

definition is_empty_or_comment_line :: "string \<Rightarrow> bool" where
  "is_empty_or_comment_line line =
     (case skip_whitespace line of
        [] \<Rightarrow> True
      | c # _ \<Rightarrow> c = CHR '';'')"

definition is_reserved_keyword :: "string \<Rightarrow> bool" where
  "is_reserved_keyword str =
     (if List.member opcode_names str then True
      else if List.member directive_names str then True
      else if List.member register_names str then True
      else False)"

definition is_legal_label :: "string \<Rightarrow> bool" where
  "is_legal_label label =
     (case label of
        [] \<Rightarrow> False
      | c # rest \<Rightarrow>
          if \<not> is_alpha c then False
          else if \<not> list_all is_alphanumeric rest then False
          else if length label > MAX_LABEL_LENGTH then False
          else if is_reserved_keyword label then False
          else True)"

section \<open>pre_assembler.c: the classifiers\<close>

text \<open>
  \<open>strncpy (line_copy, line, MAX_LINE_LENGTH)\<close> followed by
  \<open>line_copy[MAX_LINE_LENGTH] = 0\<close> keeps the first 80 characters of the line.
\<close>

definition line_copy :: "string \<Rightarrow> string" where
  "line_copy line = take MAX_LINE_LENGTH line"

definition is_prefix_str :: "string \<Rightarrow> string \<Rightarrow> bool" where
  \<comment> \<open>\<open>strncmp (s, p, strlen p) == 0\<close>\<close>
  "is_prefix_str p s = (take (length p) s = p)"

definition is_valid_macro_name :: "string \<Rightarrow> bool" where
  "is_valid_macro_name name =
     (case name of
        [] \<Rightarrow> False
      | c # _ \<Rightarrow>
          if length name > MAX_LABEL_LENGTH then False
          else if c = CHR ''_'' then False
          else if \<not> is_alpha c then False
          else if \<not> list_all is_alphanumeric name then False
          else if is_reserved_keyword name then False
          else True)"

text \<open>
  \<open>extract_macro_name\<close> returns the name it copied into the caller's buffer, or
  \<open>None\<close> where the source returns FALSE and leaves the buffer as it was.
\<close>

definition extract_macro_name :: "string \<Rightarrow> nat \<Rightarrow> string option" where
  "extract_macro_name line buffer_size =
     (let trimmed_line = trim_whitespace (line_copy line)
      in if \<not> is_prefix_str ''mcro'' trimmed_line then None
         else
           let after_kw = skip_whitespace (drop 4 trimmed_line);
               extracted_name = takeWhile (\<lambda>c. \<not> is_whitespace c) after_kw;
               token = dropWhile (\<lambda>c. \<not> is_whitespace c) after_kw
           in if extracted_name = [] then None
              else if length extracted_name \<ge> MAX_LABEL_LENGTH + 1 then None
              else
                (case skip_whitespace token of
                   [] \<Rightarrow>
                     if length extracted_name \<ge> buffer_size then None
                     else Some extracted_name
                 | c # _ \<Rightarrow>
                     if c = CHR '';'' then
                       (if length extracted_name \<ge> buffer_size then None
                        else Some extracted_name)
                     else None))"

text \<open>
  The public classifiers take pointers; \<open>None\<close> is the NULL pointer. The start
  classifier returns its result together with the caller's buffer after the call.
\<close>

definition is_macro_definition_start ::
  "string option \<Rightarrow> string option \<Rightarrow> nat \<Rightarrow> bool \<times> string option" where
  "is_macro_definition_start line macro_name_buffer buffer_size =
     (case line of
        None \<Rightarrow> (False, macro_name_buffer)
      | Some l \<Rightarrow>
          (case macro_name_buffer of
             None \<Rightarrow> (False, None)
           | Some buf \<Rightarrow>
               (case extract_macro_name l buffer_size of
                  None \<Rightarrow> (False, Some buf)
                | Some name \<Rightarrow> (True, Some name))))"

definition is_macro_definition_end :: "string option \<Rightarrow> bool" where
  "is_macro_definition_end line =
     (case line of
        None \<Rightarrow> False
      | Some l \<Rightarrow>
          let trimmed_line = trim_whitespace (line_copy l)
          in if is_prefix_str ''mcroend'' trimmed_line then
               (case skip_whitespace (drop 7 trimmed_line) of
                  [] \<Rightarrow> True
                | c # _ \<Rightarrow> c = CHR '';'')
             else False)"

section \<open>Reading the input: fgets\<close>

text \<open>
  The input file is its bytes. \<open>fgets (line, sizeof line, f)\<close> with a buffer of
  \<open>MAX_LINE_LENGTH + 2\<close> bytes reads up to 81 characters, stopping after a newline, and
  returns NULL when nothing is left. The C code then sees the buffer as a C string: up to
  the first NUL.
\<close>

fun fgets_chars :: "nat \<Rightarrow> string \<Rightarrow> string \<times> string" where
  "fgets_chars 0 s = ([], s)"
| "fgets_chars (Suc n) [] = ([], [])"
| "fgets_chars (Suc n) (c # s) =
     (if c = CHR 0x0A then ([c], s)
      else (case fgets_chars n s of (l, r) \<Rightarrow> (c # l, r)))"

definition fgets :: "nat \<Rightarrow> string \<Rightarrow> (string \<times> string) option" where
  "fgets n s = (if s = [] then None else Some (fgets_chars (n - 1) s))"

definition c_string :: "string \<Rightarrow> string" where
  "c_string buf = takeWhile (\<lambda>c. c \<noteq> CHR 0x00) buf"

lemma fgets_chars_length:
  "fgets_chars n s = (l, r) \<Longrightarrow> length l + length r = length s"
  by (induction n s arbitrary: l r rule: fgets_chars.induct)
     (auto split: if_splits prod.splits)

lemma fgets_chars_nonempty:
  "fgets_chars (Suc n) (c # s) = (l, r) \<Longrightarrow> l \<noteq> []"
  by (auto split: if_splits prod.splits)

lemma fgets_shorter:
  assumes "fgets (Suc (Suc n)) s = Some (l, r)"
  shows "length r < length s"
proof -
  from assms obtain c t where s: "s = c # t"
    by (cases s) (auto simp: fgets_def)
  from assms have f: "fgets_chars (Suc n) (c # t) = (l, r)"
    by (simp add: fgets_def s)
  have "l \<noteq> []" using fgets_chars_nonempty [OF f] .
  moreover have "length l + length r = length s"
    using fgets_chars_length [OF f] s by simp
  ultimately show ?thesis by (cases l) auto
qed

function read_lines :: "string \<Rightarrow> string list" where
  "read_lines s =
     (case fgets (MAX_LINE_LENGTH + 2) s of
        None \<Rightarrow> []
      | Some (l, rest) \<Rightarrow> c_string l # read_lines rest)"
  by pat_completeness auto
termination
  by (relation "measure length") (auto dest: fgets_shorter)

declare read_lines.simps [simp del]

section \<open>pre_assembler.c: the macro table and the two passes\<close>

record Macro =
  macro_name :: string
  macro_body :: string

definition add_macro :: "string \<Rightarrow> string \<Rightarrow> nat \<Rightarrow> Macro list \<Rightarrow> Macro list" where
  "add_macro nm bdy body_length g_macros =
     g_macros @ [\<lparr>macro_name = take MAX_LABEL_LENGTH nm, macro_body = take body_length bdy\<rparr>]"

fun find_macro :: "Macro list \<Rightarrow> string \<Rightarrow> Macro option" where
  "find_macro [] nm = None"
| "find_macro (m # ms) nm = (if macro_name m = nm then Some m else find_macro ms nm)"

fun strchr :: "string \<Rightarrow> char \<Rightarrow> string option" where
  \<comment> \<open>the pointer returned is the rest of the string from the character found\<close>
  "strchr [] c = None"
| "strchr (x # s) c = (if x = c then Some (x # s) else strchr s c)"

definition is_macro_call :: "Macro list \<Rightarrow> string \<Rightarrow> string option" where
  "is_macro_call g_macros line =
     (let trimmed0 = trim_whitespace (line_copy line);
          trimmed_line =
            (case strchr trimmed0 (CHR '':'') of
               None \<Rightarrow> trimmed0
             | Some p \<Rightarrow> skip_whitespace (drop 1 p));
          token = takeWhile (\<lambda>c. \<not> is_whitespace c) trimmed_line
      in if token = [] then None
         else if length token > MAX_LABEL_LENGTH then None
         else map_option macro_name (find_macro g_macros token))"

text \<open>
  The locals of \<open>process_pre_assembly_for_file\<close> and the globals it works on.
  \<open>macro_body\<close> of the source is a buffer of which the first \<open>macro_body_size\<close> bytes
  count; \<open>body_buffer\<close> is those bytes. \<open>output_file\<close> is \<open>None\<close> while the .am file is
  not open, and holds what was written to it otherwise.
\<close>

record pass_state =
  g_macros :: "Macro list"
  line_number :: nat
  in_macro_definition :: bool
  current_macro_name :: string
  body_buffer :: string
  has_errors_in_file :: bool
  g_errors :: diagnostics
  output_file :: "string option"

definition initial_pass_state :: pass_state where
  "initial_pass_state =
     \<lparr>g_macros = [], line_number = 0, in_macro_definition = False, current_macro_name = [],
      body_buffer = [], has_errors_in_file = False, g_errors = [], output_file = None\<rparr>"

definition fail_line :: "ErrorType \<Rightarrow> pass_state \<Rightarrow> pass_state" where
  \<comment> \<open>\<open>report_error (file_name, line_number, e); has_errors_in_file = TRUE; continue\<close>\<close>
  "fail_line e st =
     st\<lparr>g_errors := report_error (line_number st) e (g_errors st), has_errors_in_file := True\<rparr>"

definition first_pass_line :: "string \<Rightarrow> pass_state \<Rightarrow> pass_state" where
  "first_pass_line line st0 =
     (let st = st0\<lparr>line_number := line_number st0 + 1\<rparr>
      in if length line > MAX_LINE_LENGTH + 1 then fail_line ERROR_LINE_TOO_LONG st
         else
           (case is_macro_definition_start (Some line) (Some (current_macro_name st))
                   (MAX_LABEL_LENGTH + 1) of
              (True, Some nm) \<Rightarrow>
                (let st1 = st\<lparr>current_macro_name := nm\<rparr>
                 in if \<not> is_valid_macro_name nm then
                      (if is_reserved_keyword nm
                       then fail_line ERROR_MACRO_NAME_RESERVED_KEYWORD st1
                       else fail_line ERROR_MACRO_NAME_INVALID_FORMAT st1)
                    else if find_macro (g_macros st1) nm \<noteq> None then
                      fail_line ERROR_LABEL_REDEFINITION st1
                    else st1\<lparr>in_macro_definition := True, body_buffer := []\<rparr>)
            | (True, None) \<Rightarrow> st
            | (False, _) \<Rightarrow>
                if is_macro_definition_end (Some line) then
                  (let st1 =
                         (if length (body_buffer st) > 0
                          then st\<lparr>g_macros := add_macro (current_macro_name st) (body_buffer st)
                                                  (length (body_buffer st)) (g_macros st)\<rparr>
                          else st)
                   in st1\<lparr>in_macro_definition := False, body_buffer := []\<rparr>)
                else if in_macro_definition st then
                  st\<lparr>body_buffer := body_buffer st @ line\<rparr>
                else st))"

definition fputs :: "string \<Rightarrow> string option \<Rightarrow> string option" where
  \<comment> \<open>guarded in the source by \<open>output_file != NULL\<close>\<close>
  "fputs text file = (case file of None \<Rightarrow> None | Some written \<Rightarrow> Some (written @ text))"

definition second_pass_line :: "string \<Rightarrow> pass_state \<Rightarrow> pass_state" where
  "second_pass_line line st0 =
     (let st = st0\<lparr>line_number := line_number st0 + 1\<rparr>
      in case is_macro_definition_start (Some line) (Some (current_macro_name st))
                (MAX_LABEL_LENGTH + 1) of
           (True, Some nm) \<Rightarrow> st\<lparr>current_macro_name := nm, in_macro_definition := True\<rparr>
         | (True, None) \<Rightarrow> st
         | (False, _) \<Rightarrow>
             if is_macro_definition_end (Some line) then st\<lparr>in_macro_definition := False\<rparr>
             else if in_macro_definition st then st
             else
               (case is_macro_call (g_macros st) line of
                  Some nm \<Rightarrow>
                    (case find_macro (g_macros st) nm of
                       None \<Rightarrow> st
                     | Some called_macro \<Rightarrow>
                         (case strchr line (CHR '':'') of
                            Some colon_pos \<Rightarrow>
                              st\<lparr>output_file :=
                                   fputs (macro_body called_macro)
                                     (fputs (take (length line - length colon_pos + 1) line)
                                        (output_file st))\<rparr>
                          | None \<Rightarrow>
                              st\<lparr>output_file := fputs (macro_body called_macro) (output_file st)\<rparr>))
                | None \<Rightarrow> st\<lparr>output_file := fputs line (output_file st)\<rparr>))"

text \<open>
  What a run leaves of the .am file: never opened, written and closed with the given
  content, or written and then deleted.
\<close>

datatype am_file_state = Not_Opened | Written string | Deleted

record run_result =
  success :: bool
  reports :: diagnostics
  am_left :: am_file_state

definition first_pass :: "string \<Rightarrow> pass_state" where
  "first_pass input = fold first_pass_line (read_lines input) initial_pass_state"

definition second_pass :: "string \<Rightarrow> pass_state \<Rightarrow> pass_state" where
  "second_pass input st1 =
     fold second_pass_line (read_lines input)
       (st1\<lparr>output_file := (if \<not> has_errors_in_file st1 then Some [] else None),
            line_number := 0, in_macro_definition := False\<rparr>)"

text \<open>
  \<open>process_pre_assembly_for_file\<close> of pre_assembler.c, on an input file that exists and
  an output file that can be opened (the two \<open>fopen\<close> failures are not modelled).
\<close>

definition process_pre_assembly_for_file :: "string \<Rightarrow> run_result" where
  "process_pre_assembly_for_file input =
     (let st = second_pass input (first_pass input)
      in \<lparr>success = (\<not> has_errors_in_file st \<and> \<not> has_errors (g_errors st)),
          reports = g_errors st,
          am_left = (case output_file st of None \<Rightarrow> Not_Opened | Some t \<Rightarrow> Written t)\<rparr>)"

section \<open>The list-based draft (\<open>pre_assembler copy.c\<close>, the second unit of main.c)\<close>

text \<open>
  The draft defines the same three functions again, over a linked list of macros whose
  bodies are linked lists of lines. Its functions carry the suffix \<open>_copy\<close> here.
  It tokenises with \<open>strtok (s, " \t\n\r")\<close>: the model returns the token and the
  position saved for the next call.
\<close>

definition is_delimiter :: "char \<Rightarrow> bool" where
  "is_delimiter c = (c = CHR '' '' \<or> c = CHR 0x09 \<or> c = CHR 0x0A \<or> c = CHR 0x0D)"

definition strtok :: "string \<Rightarrow> (string \<times> string) option" where
  "strtok s =
     (let s1 = dropWhile is_delimiter s
      in if s1 = [] then None
         else Some (takeWhile (\<lambda>c. \<not> is_delimiter c) s1,
                    drop 1 (dropWhile (\<lambda>c. \<not> is_delimiter c) s1)))"

fun strstr :: "string \<Rightarrow> string \<Rightarrow> string option" where
  \<comment> \<open>the pointer returned is the rest of the string from the first match\<close>
  "strstr [] needle = (if needle = [] then Some [] else None)"
| "strstr (c # s) needle =
     (if is_prefix_str needle (c # s) then Some (c # s) else strstr s needle)"

definition trim_whitespace_buffer :: "string \<Rightarrow> string" where
  \<comment> \<open>the buffer after \<open>trim_whitespace (buf)\<close> when the pointer returned is dropped\<close>
  "trim_whitespace_buffer str = takeWhile is_whitespace str @ trim_whitespace str"

record MacroNode =
  node_name :: string
  content :: "string list"

text \<open>
  The statics of the draft and the locals of its \<open>process_pre_assembly_for_file\<close>.
  \<open>g_current_macro\<close> points into the list: the index of the node, \<open>None\<close> for NULL.
  \<open>am_file\<close> is \<open>None\<close> while the .am file is not open, and holds what was written to
  it otherwise.
\<close>

record scan_state =
  g_macros_list_head :: "MacroNode list"
  g_in_macro_definition :: bool
  g_current_macro :: "nat option"
  g_current_line_number :: nat
  reported :: diagnostics
  am_file :: "string option"
  has_non_empty_lines :: bool
  overall_success :: bool

definition initial_scan_state :: scan_state where
  "initial_scan_state =
     \<lparr>g_macros_list_head = [], g_in_macro_definition = False, g_current_macro = None,
      g_current_line_number = 0, reported = [], am_file = None,
      has_non_empty_lines = False, overall_success = True\<rparr>"

definition report :: "ErrorType \<Rightarrow> scan_state \<Rightarrow> scan_state" where
  "report e st = st\<lparr>reported := report_error (g_current_line_number st) e (reported st)\<rparr>"

definition write_am :: "string \<Rightarrow> scan_state \<Rightarrow> scan_state" where
  \<comment> \<open>\<open>if (!has_errors ()) { if (am_file == NULL) am_file = fopen (..., "w"); fputs (...) }\<close>\<close>
  "write_am text st =
     (if \<not> has_errors (reported st)
      then st\<lparr>am_file := Some ((case am_file st of None \<Rightarrow> [] | Some w \<Rightarrow> w) @ text)\<rparr>
      else st)"

fun find_macro_in_list :: "MacroNode list \<Rightarrow> string \<Rightarrow> MacroNode option" where
  "find_macro_in_list [] nm = None"
| "find_macro_in_list (m # ms) nm =
     (if node_name m = nm then Some m else find_macro_in_list ms nm)"

definition create_macro_list_node :: "string \<Rightarrow> MacroNode" where
  "create_macro_list_node nm = \<lparr>node_name = take MAX_LABEL_LENGTH nm, content = []\<rparr>"

fun append_content :: "nat \<Rightarrow> string \<Rightarrow> MacroNode list \<Rightarrow> MacroNode list" where
  "append_content i l [] = []"
| "append_content 0 l (m # ms) = m\<lparr>content := content m @ [l]\<rparr> # ms"
| "append_content (Suc i) l (m # ms) = m # append_content i l ms"

definition add_line_to_current_macro_content :: "string \<Rightarrow> scan_state \<Rightarrow> scan_state" where
  "add_line_to_current_macro_content line_text st =
     (case g_current_macro st of
        None \<Rightarrow> (report ERROR_INTERNAL_ERROR st)\<lparr>overall_success := False\<rparr>
      | Some i \<Rightarrow> st\<lparr>g_macros_list_head := append_content i line_text (g_macros_list_head st)\<rparr>)"

definition copy_macro_content_to_file :: "MacroNode \<Rightarrow> string" where
  "copy_macro_content_to_file macro_to_expand = concat (content macro_to_expand)"

definition is_macro_definition_end_copy :: "string \<Rightarrow> scan_state \<Rightarrow> bool \<times> scan_state" where
  "is_macro_definition_end_copy line st =
     (case strtok (take MAX_LINE_LENGTH line) of
        None \<Rightarrow> (False, st)
      | Some (token, rest) \<Rightarrow>
          if token \<noteq> ''mcroend'' then (False, st)
          else
            (case strtok rest of
               None \<Rightarrow> (True, st)
             | Some (token2, _) \<Rightarrow>
                 if is_prefix_str '';'' token2 then (True, st)
                 else (False, report ERROR_MACRO_DEFINITION_SYNTAX st)))"

definition is_macro_definition_start_copy ::
  "string \<Rightarrow> nat \<Rightarrow> scan_state \<Rightarrow> string option \<times> scan_state" where
  "is_macro_definition_start_copy line buffer_size st =
     (case strtok (take MAX_LINE_LENGTH line) of
        None \<Rightarrow> (None, st)
      | Some (macro_keyword, rest) \<Rightarrow>
          if macro_keyword \<noteq> ''mcro'' then (None, st)
          else
            (case strtok rest of
               None \<Rightarrow> (None, report ERROR_MACRO_DEFINITION_SYNTAX st)
             | Some (nm, _) \<Rightarrow>
                 (case strstr line nm of
                    None \<Rightarrow> (None, report ERROR_INTERNAL_ERROR st)
                  | Some macro_name_pos \<Rightarrow>
                      (let after_macro_name =
                             dropWhile (\<lambda>c. c = CHR '' '' \<or> c = CHR 0x09)
                               (drop (length nm) macro_name_pos)
                       in if \<not> (after_macro_name = [] \<or> is_prefix_str [CHR 0x0A] after_macro_name
                                 \<or> is_prefix_str '';'' after_macro_name)
                          then (None, report ERROR_MACRO_DEFINITION_SYNTAX st)
                          else if \<not> is_legal_label nm
                          then (None, report ERROR_MACRO_NAME_INVALID_FORMAT st)
                          else if is_reserved_keyword nm
                          then (None, report ERROR_MACRO_NAME_RESERVED_KEYWORD st)
                          else if g_in_macro_definition st
                          then (None, report ERROR_NESTED_MACRO_DEFINITION st)
                          else (Some (take (buffer_size - 1) nm), st)))))"

definition find_called_macro :: "string \<Rightarrow> scan_state \<Rightarrow> MacroNode option \<times> scan_state" where
  \<comment> \<open>lines 247 to 275 of main.c: the first word looked up, and extra words refused\<close>
  "find_called_macro trimmed_line st =
     (case strtok (take MAX_LINE_LENGTH trimmed_line) of
        None \<Rightarrow> (None, st)
      | Some (first_token, rest) \<Rightarrow>
          (case find_macro_in_list (g_macros_list_head st) first_token of
             None \<Rightarrow> (None, st)
           | Some called_macro \<Rightarrow>
               (case strtok rest of
                  None \<Rightarrow> (Some called_macro, st)
                | Some (extra_token, _) \<Rightarrow>
                    if is_prefix_str '';'' extra_token then (Some called_macro, st)
                    else (None, report ERROR_GENERIC_SYNTAX_ERROR st))))"

definition scan_outside_definition :: "string \<Rightarrow> string \<Rightarrow> scan_state \<Rightarrow> scan_state" where
  \<comment> \<open>lines 244 to 321 of main.c\<close>
  "scan_outside_definition trimmed_line line_buffer st =
     (case find_called_macro trimmed_line st of
        (Some called_macro, s) \<Rightarrow> write_am (copy_macro_content_to_file called_macro) s
      | (None, s) \<Rightarrow>
          (case is_macro_definition_start_copy trimmed_line (MAX_LABEL_LENGTH + 1) s of
             (Some temp_macro_name, s') \<Rightarrow>
               s'\<lparr>g_macros_list_head :=
                     g_macros_list_head s' @ [create_macro_list_node temp_macro_name],
                   g_current_macro := Some (length (g_macros_list_head s')),
                   g_in_macro_definition := True\<rparr>
           | (None, s') \<Rightarrow> write_am line_buffer s'))"

definition check_unexpected_end :: "string \<Rightarrow> scan_state \<Rightarrow> scan_state" where
  \<comment> \<open>lines 204 to 208 of main.c; there is no \<open>continue\<close> after the report\<close>
  "check_unexpected_end trimmed_line st =
     (if \<not> g_in_macro_definition st then
        (case is_macro_definition_end_copy trimmed_line st of
           (True, s) \<Rightarrow> report ERROR_UNEXPECTED_MACRO_END s
         | (False, s) \<Rightarrow> s)
      else st)"

definition scan_checked_line :: "string \<Rightarrow> string \<Rightarrow> scan_state \<Rightarrow> scan_state" where
  \<comment> \<open>lines 210 to 321 of main.c\<close>
  "scan_checked_line trimmed_line line_buffer st =
     (if \<not> g_in_macro_definition st \<and> is_empty_or_comment_line trimmed_line
      then write_am line_buffer st
      else if g_in_macro_definition st then
        (case is_macro_definition_end_copy trimmed_line st of
           (True, s) \<Rightarrow> s\<lparr>g_in_macro_definition := False, g_current_macro := None\<rparr>
         | (False, s) \<Rightarrow> add_line_to_current_macro_content line_buffer s)
      else
        scan_outside_definition trimmed_line line_buffer (st\<lparr>has_non_empty_lines := True\<rparr>))"

definition scan_line :: "string \<Rightarrow> scan_state \<Rightarrow> scan_state" where
  \<comment> \<open>the body of the \<open>while (fgets ...)\<close> loop, lines 189 to 322 of main.c\<close>
  "scan_line line_buffer st0 =
     (let st = st0\<lparr>g_current_line_number := g_current_line_number st0 + 1\<rparr>
      in if length line_buffer > MAX_LINE_LENGTH
            \<and> line_buffer ! MAX_LINE_LENGTH \<noteq> CHR 0x0A
            \<and> line_buffer ! MAX_LINE_LENGTH \<noteq> CHR 0x00
         then report ERROR_LINE_TOO_LONG st
         else
           (let trimmed_line = trim_whitespace_buffer (take MAX_LINE_LENGTH line_buffer)
            in scan_checked_line trimmed_line line_buffer
                 (check_unexpected_end trimmed_line st)))"

definition finish_scan :: "scan_state \<Rightarrow> scan_state" where
  \<comment> \<open>lines 324 to 334 of main.c: the checks after the loop\<close>
  "finish_scan st =
     (let st1 =
            (if g_in_macro_definition st
             then (report ERROR_UNCLOSED_MACRO_DEFINITION st)\<lparr>overall_success := False\<rparr>
             else st)
      in if \<not> has_non_empty_lines st1
         then st1\<lparr>reported := report_error 0 ERROR_EMPTY_OR_COMMENT_FILE (reported st1),
                  overall_success := False\<rparr>
         else st1)"

definition scan_file :: "string \<Rightarrow> scan_state" where
  "scan_file input = finish_scan (fold scan_line (read_lines input) initial_scan_state)"

text \<open>
  \<open>process_pre_assembly_for_file\<close> of the draft, on an input file that exists, an
  output file that can be opened and deleted, and allocations that succeed.
\<close>

definition process_pre_assembly_for_file_copy :: "string \<Rightarrow> run_result" where
  "process_pre_assembly_for_file_copy input =
     (let st = scan_file input
      in if has_errors (reported st) \<or> \<not> overall_success st
         then \<lparr>success = False, reports = reported st,
               am_left = (case am_file st of None \<Rightarrow> Not_Opened | Some _ \<Rightarrow> Deleted)\<rparr>
         else \<lparr>success = overall_success st, reports = reported st,
               am_left = (case am_file st of None \<Rightarrow> Not_Opened | Some t \<Rightarrow> Written t)\<rparr>)"

section \<open>Input files written line by line\<close>

definition text_lines :: "string list \<Rightarrow> string" where
  \<comment> \<open>the file whose lines are the given ones, each ended by a newline\<close>
  "text_lines ls = concat (map (\<lambda>l. l @ [CHR 0x0A]) ls)"

section \<open>The macro name as the specification words it\<close>

definition MacroName_spec :: "string \<Rightarrow> bool" where
  \<comment> \<open>1 to 30 characters, the first alphabetic, the others alphanumeric or underscore,
      and not a reserved keyword (an opcode, directive or register name)\<close>
  "MacroName_spec s =
     (1 \<le> length s \<and> length s \<le> 30 \<and> is_alpha (hd s) \<and> list_all is_alphanumeric (tl s)
      \<and> \<not> is_reserved_keyword s)"

section \<open>Predicates used in the statements and proofs\<close>

text \<open>
  The inputs of which pre_assembler.c classifies no line as a macro start or a macro end.
\<close>

definition no_macro_lines :: "string \<Rightarrow> bool" where
  "no_macro_lines input =
     list_all (\<lambda>l. \<not> fst (is_macro_definition_start (Some l) (Some []) (MAX_LABEL_LENGTH + 1))
                  \<and> \<not> is_macro_definition_end (Some l))
       (read_lines input)"

definition plain_line :: "string \<Rightarrow> bool" where
  "plain_line l = (length l \<le> MAX_LINE_LENGTH + 1
      \<and> \<not> fst (is_macro_definition_start (Some l) (Some []) (MAX_LABEL_LENGTH + 1))
      \<and> \<not> is_macro_definition_end (Some l))"

text \<open>
  The list-based draft only appends to its diagnostics and to its macro list.
\<close>

definition grows :: "scan_state \<Rightarrow> scan_state \<Rightarrow> bool" where
  "grows st st' =
     (length (reported st) \<le> length (reported st')
      \<and> length (g_macros_list_head st) \<le> length (g_macros_list_head st'))"

section \<open>Properties\<close>

text \<open>
  C10. With a NULL line or a NULL name buffer \<open>is_macro_definition_start\<close> of
  pre_assembler.c returns FALSE, whatever the buffer size, and leaves the buffer as it
  was; \<open>is_macro_definition_end\<close> returns FALSE on a NULL line. Both classifiers of
  pre_assembler.c are functions of their arguments alone: they take and return neither
  the diagnostics nor the macro table.
\<close>

theorem classifiers_null_safe:
  "is_macro_definition_start None macro_name_buffer buffer_size = (False, macro_name_buffer)
   \<and> is_macro_definition_start line None buffer_size = (False, None)
   \<and> is_macro_definition_end None = False"
  by (simp add: is_macro_definition_start_def is_macro_definition_end_def split: option.split)


lemma is_alpha_not_underscore: "is_alpha c \<Longrightarrow> c \<noteq> CHR ''_''"
  by (auto simp: is_alpha_def is_upper_c_def is_lower_c_def)

lemma is_alpha_alphanumeric: "is_alpha c \<Longrightarrow> is_alphanumeric c"
  by (simp add: is_alphanumeric_def)

text \<open>
  C7 (the claim as stated fails). The keywords \<open>mcro\<close> and \<open>mcroend\<close> are in none of
  the three reserved tables of utils.c: the validator accepts both as macro names, and
  the start line \<open>mcro mcro\<close> is classified as the start of a macro named \<open>mcro\<close>.
\<close>

theorem mcro_keywords_accepted_as_names:
  "is_valid_macro_name ''mcro'' \<and> is_valid_macro_name ''mcroend''
   \<and> \<not> is_reserved_keyword ''mcro'' \<and> \<not> is_reserved_keyword ''mcroend''
   \<and> is_macro_definition_start (Some (text_lines [''mcro mcro''])) (Some [])
         (MAX_LABEL_LENGTH + 1) = (True, Some ''mcro'')"
  by code_simp

text \<open>
  C7 (amended). \<open>is_valid_macro_name\<close> accepts exactly the strings of 1 to 30
  characters that start with an alphabetic character, continue with alphanumeric
  characters or underscores, and are in none of the reserved tables (opcodes, directives,
  registers). The label check of utils.c accepts the same strings.
\<close>

theorem is_valid_macro_name_iff_spec:
  "is_valid_macro_name s = MacroName_spec s \<and> is_legal_label s = MacroName_spec s"
proof (cases s)
  case Nil
  then show ?thesis
    by (simp add: is_valid_macro_name_def is_legal_label_def MacroName_spec_def)
next
  case (Cons c rest)
  then show ?thesis
    using is_alpha_not_underscore [of c] is_alpha_alphanumeric [of c]
    by (auto simp: is_valid_macro_name_def is_legal_label_def MacroName_spec_def
                   MAX_LABEL_LENGTH_def)
qed

text \<open>
  C2 (the code misses the claim). On the four lines \<open>mcro FOO\<close>, \<open>add r1,r2\<close>,
  \<open>mcroend\<close>, \<open>FOO\<close> pre_assembler.c succeeds and writes an empty .am file:
  \<open>extract_macro_name\<close> compares only the first four characters with \<open>mcro\<close>, so the
  line \<open>mcroend\<close> starts a macro named \<open>end\<close> and the call is swallowed as its body.
  The list-based draft writes the expected line.
\<close>

theorem example_expansion_is_empty:
  "process_pre_assembly_for_file (text_lines [''mcro FOO'', ''add r1,r2'', ''mcroend'', ''FOO''])
     = \<lparr>success = True, reports = [], am_left = Written []\<rparr>
   \<and> is_macro_definition_start (Some (text_lines [''mcroend''])) (Some ''FOO'')
         (MAX_LABEL_LENGTH + 1) = (True, Some ''end'')
   \<and> process_pre_assembly_for_file_copy
        (text_lines [''mcro FOO'', ''add r1,r2'', ''mcroend'', ''FOO''])
     = \<lparr>success = True, reports = [], am_left = Written (text_lines [''add r1,r2''])\<rparr>"
  by code_simp

text \<open>
  C3 (the code misses the claim). pre_assembler.c has no check after reading the file: on a
  file that ends inside the definition of FOO it reports nothing, returns success and
  writes an empty .am file. The list-based draft reports the unclosed definition.
\<close>

theorem unclosed_definition_not_reported:
  "in_macro_definition (first_pass (text_lines [''mcro FOO'', ''add r1,r2'']))
   \<and> process_pre_assembly_for_file (text_lines [''mcro FOO'', ''add r1,r2''])
     = \<lparr>success = True, reports = [], am_left = Written []\<rparr>
   \<and> process_pre_assembly_for_file_copy (text_lines [''mcro FOO'', ''add r1,r2''])
     = \<lparr>success = False, reports = [(2, ERROR_UNCLOSED_MACRO_DEFINITION)],
        am_left = Not_Opened\<rparr>"
  by code_simp

text \<open>
  C4 (the code misses the claim). The list-based draft never looks a new name up: a
  second definition of FOO is accepted without any report and appended to the table as a
  second entry of that name.
\<close>

theorem redefinition_not_reported:
  "g_macros_list_head
     (scan_file (text_lines [''mcro FOO'', ''add r1,r2'', ''mcroend'',
                             ''mcro FOO'', ''sub r1,r2'', ''mcroend'', ''FOO'']))
     = [\<lparr>node_name = ''FOO'', content = [text_lines [''add r1,r2'']]\<rparr>,
        \<lparr>node_name = ''FOO'', content = [text_lines [''sub r1,r2'']]\<rparr>]
   \<and> process_pre_assembly_for_file_copy
        (text_lines [''mcro FOO'', ''add r1,r2'', ''mcroend'',
                     ''mcro FOO'', ''sub r1,r2'', ''mcroend'', ''FOO''])
     = \<lparr>success = True, reports = [], am_left = Written (text_lines [''add r1,r2''])\<rparr>"
  by code_simp

text \<open>
  C5 (the code misses the claim). A start line inside an open definition is reported by
  neither draft. The list-based draft captures it into the open body (its nesting check
  sits in \<open>is_macro_definition_start\<close>, which is not called inside a definition);
  pre_assembler.c opens the second definition in place of the first, whose body is lost.
\<close>

theorem nested_start_not_reported:
  "process_pre_assembly_for_file_copy (text_lines [''mcro A'', ''mcro B'', ''x'', ''mcroend'', ''A''])
     = \<lparr>success = True, reports = [], am_left = Written (text_lines [''mcro B'', ''x''])\<rparr>
   \<and> current_macro_name (first_pass (text_lines [''mcro A'', ''mcro B''])) = ''B''
   \<and> process_pre_assembly_for_file (text_lines [''mcro A'', ''mcro B'', ''x'', ''mcroend'', ''A''])
     = \<lparr>success = True, reports = [], am_left = Written []\<rparr>"
  by code_simp

text \<open>
  C8 (the code misses the claim). In pre_assembler.c a line \<open>mcroend\<close> outside any
  definition is reported nowhere: it is classified as the start of a macro named \<open>end\<close>,
  the scanner enters the definition and the lines after it are swallowed. The list-based
  draft reports the unexpected end.
\<close>

theorem unexpected_end_not_reported:
  "in_macro_definition (first_pass (text_lines [''mcroend'']))
   \<and> process_pre_assembly_for_file (text_lines [''mcroend'', ''add r1,r2''])
     = \<lparr>success = True, reports = [], am_left = Written []\<rparr>
   \<and> process_pre_assembly_for_file_copy (text_lines [''mcroend'', ''add r1,r2''])
     = \<lparr>success = False, reports = [(1, ERROR_UNEXPECTED_MACRO_END)], am_left = Not_Opened\<rparr>"
  by code_simp

text \<open>
  C9 (the code misses the claim). \<open>fgets\<close> never returns more than 81 characters, so
  the test \<open>strlen (line) > MAX_LINE_LENGTH + 1\<close> of pre_assembler.c is never true: a
  line of 81 characters is reported nowhere and copied to the output. The list-based
  draft reports the first 81 characters of a long line and then reads the rest of it as
  the next line: inside a definition the rest is captured into the macro's body.
\<close>

theorem long_line_not_reported:
  "process_pre_assembly_for_file (text_lines [replicate 81 (CHR ''a'')])
     = \<lparr>success = True, reports = [],
        am_left = Written (text_lines [replicate 81 (CHR ''a'')])\<rparr>
   \<and> reported (scan_file (text_lines [''mcro M'', replicate 85 (CHR ''x''), ''mcroend'']))
     = [(2, ERROR_LINE_TOO_LONG)]
   \<and> g_macros_list_head
       (scan_file (text_lines [''mcro M'', replicate 85 (CHR ''x''), ''mcroend'']))
     = [\<lparr>node_name = ''M'', content = [text_lines [''xxxx'']]\<rparr>]"
  by code_simp

text \<open>
  C1 (the code misses the claim). The list-based draft opens the .am file at the first
  line it writes. A file that holds macro definitions only is processed without any
  report and with success, and no .am file is created; pre_assembler.c creates the
  (empty) file on the same input.
\<close>

theorem clean_run_without_output_file:
  "process_pre_assembly_for_file_copy (text_lines [''mcro FOO'', ''add r1,r2'', ''mcroend''])
     = \<lparr>success = True, reports = [], am_left = Not_Opened\<rparr>
   \<and> process_pre_assembly_for_file (text_lines [''mcro FOO'', ''add r1,r2'', ''mcroend''])
     = \<lparr>success = True, reports = [], am_left = Written []\<rparr>"
  by code_simp


subsection \<open>The lines read from a file\<close>

lemma c_string_id: "CHR 0x00 \<notin> set buf \<Longrightarrow> c_string buf = buf"
  by (auto simp: c_string_def)

lemma fgets_chars_append: "fgets_chars n s = (l, r) \<Longrightarrow> l @ r = s"
  by (induction n s arbitrary: l r rule: fgets_chars.induct)
     (auto split: if_splits prod.splits)

lemma fgets_chars_bound: "fgets_chars n s = (l, r) \<Longrightarrow> length l \<le> n"
  by (induction n s arbitrary: l r rule: fgets_chars.induct)
     (auto split: if_splits prod.splits)

lemma length_c_string: "length (c_string buf) \<le> length buf"
  by (simp add: c_string_def length_takeWhile_le)

lemma read_lines_concat: "CHR 0x00 \<notin> set s \<Longrightarrow> concat (read_lines s) = s"
proof (induction s rule: read_lines.induct)
  case (1 s)
  show ?case
  proof (cases "fgets (MAX_LINE_LENGTH + 2) s")
    case None
    then have "s = []" by (simp add: fgets_def split: if_splits)
    with None show ?thesis by (subst read_lines.simps) simp
  next
    case (Some p)
    obtain l r where p: "p = (l, r)" by (cases p)
    from Some p have f: "fgets_chars (MAX_LINE_LENGTH + 1) s = (l, r)"
      by (simp add: fgets_def split: if_splits)
    have app: "l @ r = s" using fgets_chars_append [OF f] .
    with "1.prems" have nul: "CHR 0x00 \<notin> set l" "CHR 0x00 \<notin> set r" by auto
    have "concat (read_lines r) = r" using "1.IH" [OF Some p [symmetric]] nul
      by simp
    then show ?thesis
      using Some p app c_string_id [OF nul(1)] by (subst read_lines.simps) simp
  qed
qed

lemma read_lines_length: "l \<in> set (read_lines s) \<Longrightarrow> length l \<le> MAX_LINE_LENGTH + 1"
proof (induction s rule: read_lines.induct)
  case (1 s)
  show ?case
  proof (cases "fgets (MAX_LINE_LENGTH + 2) s")
    case None
    with "1.prems" show ?thesis by (subst (asm) read_lines.simps) simp
  next
    case (Some p)
    obtain b r where p: "p = (b, r)" by (cases p)
    from Some p have f: "fgets_chars (MAX_LINE_LENGTH + 1) s = (b, r)"
      by (simp add: fgets_def split: if_splits)
    from "1.prems" Some p have "l = c_string b \<or> l \<in> set (read_lines r)"
      by (subst (asm) read_lines.simps) auto
    then show ?thesis
    proof
      assume "l = c_string b"
      then show ?thesis
        using fgets_chars_bound [OF f] length_c_string [of b] by simp
    next
      assume "l \<in> set (read_lines r)"
      then show ?thesis using "1.IH" [OF Some p [symmetric]] by simp
    qed
  qed
qed

lemma start_buffer_irrelevant:
  "fst (is_macro_definition_start (Some l) (Some buf) n) = (extract_macro_name l n \<noteq> None)"
  by (simp add: is_macro_definition_start_def split: option.splits)

lemma not_start_result:
  "\<not> fst (is_macro_definition_start (Some l) (Some []) n) \<Longrightarrow>
   is_macro_definition_start (Some l) (Some buf) n = (False, Some buf)"
  by (simp add: is_macro_definition_start_def split: option.splits)

lemma first_pass_plain_line:
  "plain_line l \<Longrightarrow> \<not> in_macro_definition st \<Longrightarrow>
   first_pass_line l st = st\<lparr>line_number := line_number st + 1\<rparr>"
  by (simp add: first_pass_line_def plain_line_def not_start_result)

lemma first_pass_plain:
  "list_all plain_line ls \<Longrightarrow> \<not> in_macro_definition st \<Longrightarrow>
   fold first_pass_line ls st = st\<lparr>line_number := line_number st + length ls\<rparr>"
  by (induction ls arbitrary: st) (simp_all add: first_pass_plain_line)

lemma is_macro_call_empty_table: "is_macro_call [] l = None"
  by (simp add: is_macro_call_def Let_def)

lemma second_pass_plain_line:
  "plain_line l \<Longrightarrow> \<not> in_macro_definition st \<Longrightarrow> g_macros st = [] \<Longrightarrow>
   second_pass_line l st =
     st\<lparr>line_number := line_number st + 1, output_file := fputs l (output_file st)\<rparr>"
  by (simp add: second_pass_line_def plain_line_def not_start_result is_macro_call_empty_table)

lemma second_pass_plain:
  "list_all plain_line ls \<Longrightarrow> \<not> in_macro_definition st \<Longrightarrow> g_macros st = [] \<Longrightarrow>
   output_file st = Some out \<Longrightarrow>
   fold second_pass_line ls st =
     st\<lparr>line_number := line_number st + length ls, output_file := Some (out @ concat ls)\<rparr>"
  by (induction ls arbitrary: st out) (simp_all add: second_pass_plain_line fputs_def)

lemma no_macro_lines_plain: "no_macro_lines input \<Longrightarrow> list_all plain_line (read_lines input)"
  using read_lines_length [of _ input]
  by (auto simp: no_macro_lines_def plain_line_def list_all_iff)

text \<open>
  pre_assembler.c on an input without NUL bytes of which it classifies no line as a macro
  start or end: it reports nothing, succeeds and writes the input byte for byte. The
  hypothesis is the code's own classification, which takes every line that begins with
  the four characters \<open>mcro\<close> as a start.
\<close>

lemma identity_two_pass:
  assumes nul: "CHR 0x00 \<notin> set input" and nm: "no_macro_lines input"
  shows "process_pre_assembly_for_file input
           = \<lparr>success = True, reports = [], am_left = Written input\<rparr>"
proof -
  have pl: "list_all plain_line (read_lines input)" using nm by (rule no_macro_lines_plain)
  have fp: "first_pass input
             = initial_pass_state\<lparr>line_number := length (read_lines input)\<rparr>"
    using first_pass_plain [OF pl, of initial_pass_state]
    by (simp add: first_pass_def initial_pass_state_def)
  have sp: "second_pass input (first_pass input)
             = initial_pass_state\<lparr>line_number := length (read_lines input),
                                   output_file := Some (concat (read_lines input))\<rparr>"
    unfolding second_pass_def fp
    by (subst second_pass_plain [OF pl, where out = "[]"])
       (simp_all add: initial_pass_state_def)
  show ?thesis
    by (simp add: process_pre_assembly_for_file_def sp initial_pass_state_def has_errors_def
                  read_lines_concat [OF nul])
qed

subsection \<open>The list-based draft on a run without reports and without macros\<close>

lemma grows_refl: "grows st st"
  by (simp add: grows_def)

lemma grows_trans: "grows a b \<Longrightarrow> grows b c \<Longrightarrow> grows a c"
  by (auto simp: grows_def)

lemma grows_report: "grows st (report e st)"
  by (simp add: grows_def report_def report_error_def)

lemma grows_write_am: "grows st (write_am t st)"
  by (simp add: grows_def write_am_def)

lemma length_append_content: "length (append_content i l ms) = length ms"
  by (induction i l ms rule: append_content.induct) simp_all

lemma grows_add_line: "grows st (add_line_to_current_macro_content l st)"
  by (simp add: grows_def add_line_to_current_macro_content_def report_def report_error_def
                length_append_content split: option.splits)

lemma end_copy_cases:
  "is_macro_definition_end_copy l st = (b, s) \<Longrightarrow>
   s = st \<or> (\<not> b \<and> s = report ERROR_MACRO_DEFINITION_SYNTAX st)"
  by (auto simp: is_macro_definition_end_copy_def split: option.splits prod.splits if_splits)

lemma start_copy_cases:
  "is_macro_definition_start_copy l n st = (r, s) \<Longrightarrow>
   s = st \<or> (r = None \<and> (\<exists>e. s = report e st))"
  by (auto simp: is_macro_definition_start_copy_def Let_def
           split: option.splits prod.splits if_splits)

lemma find_called_cases:
  "find_called_macro l st = (r, s) \<Longrightarrow> s = st \<or> (r = None \<and> (\<exists>e. s = report e st))"
  by (auto simp: find_called_macro_def split: option.splits prod.splits if_splits)

lemma grows_end_copy: "is_macro_definition_end_copy l st = (b, s) \<Longrightarrow> grows st s"
  using end_copy_cases [of l st b s] by (auto simp: grows_refl grows_report)

lemma grows_start_copy: "is_macro_definition_start_copy l n st = (r, s) \<Longrightarrow> grows st s"
  using start_copy_cases [of l n st r s] by (auto simp: grows_refl grows_report)

lemma grows_find_called: "find_called_macro l st = (r, s) \<Longrightarrow> grows st s"
  using find_called_cases [of l st r s] by (auto simp: grows_refl grows_report)

lemma grows_check_unexpected_end: "grows st (check_unexpected_end t st)"
proof (cases "is_macro_definition_end_copy t st")
  case (Pair b s)
  then have g: "grows st s" by (rule grows_end_copy)
  have g': "grows st (report ERROR_UNEXPECTED_MACRO_END s)"
    using g grows_report by (rule grows_trans)
  show ?thesis
    using Pair g g' by (cases b) (simp_all add: check_unexpected_end_def grows_refl)
qed

lemma grows_scan_outside: "grows st (scan_outside_definition t l st)"
proof (cases "find_called_macro t st")
  case (Pair r s)
  note fc = this
  have g1: "grows st s" using fc by (rule grows_find_called)
  show ?thesis
  proof (cases r)
    case (Some m)
    then show ?thesis
      using fc g1 grows_write_am [of s]
      by (auto simp: scan_outside_definition_def intro: grows_trans)
  next
    case None
    obtain r' s' where sc: "is_macro_definition_start_copy t (MAX_LABEL_LENGTH + 1) s = (r', s')"
      by (cases "is_macro_definition_start_copy t (MAX_LABEL_LENGTH + 1) s")
    have g2: "grows s s'" using sc by (rule grows_start_copy)
    have g3: "grows st s'" using g1 g2 by (rule grows_trans)
    show ?thesis
    proof (cases r')
      case None
      then show ?thesis
        using fc \<open>r = None\<close> sc g3 grows_write_am [of s']
        by (auto simp: scan_outside_definition_def intro: grows_trans)
    next
      case (Some nm)
      have "grows s' (s'\<lparr>g_macros_list_head :=
                     g_macros_list_head s' @ [create_macro_list_node nm],
                   g_current_macro := Some (length (g_macros_list_head s')),
                   g_in_macro_definition := True\<rparr>)"
        by (simp add: grows_def)
      then show ?thesis
        using fc \<open>r = None\<close> sc Some g3
        by (auto simp: scan_outside_definition_def intro: grows_trans)
    qed
  qed
qed

lemma grows_scan_checked_line: "grows st (scan_checked_line t l st)"
proof (cases "is_macro_definition_end_copy t st")
  case (Pair b s)
  then have g: "grows st s" by (rule grows_end_copy)
  have "grows s (s\<lparr>g_in_macro_definition := False, g_current_macro := None\<rparr>)"
    by (simp add: grows_def)
  with g have g1: "grows st (s\<lparr>g_in_macro_definition := False, g_current_macro := None\<rparr>)"
    by (rule grows_trans)
  have g2: "grows st (add_line_to_current_macro_content l s)"
    using g grows_add_line by (rule grows_trans)
  have "grows st (st\<lparr>has_non_empty_lines := True\<rparr>)"
    by (simp add: grows_def)
  then have g3: "grows st (scan_outside_definition t l (st\<lparr>has_non_empty_lines := True\<rparr>))"
    using grows_scan_outside by (rule grows_trans)
  show ?thesis
    using Pair g1 g2 g3 grows_write_am [of st l]
    by (cases b) (simp_all add: scan_checked_line_def)
qed

lemma grows_scan_line: "grows st (scan_line l st)"
proof -
  let ?st = "st\<lparr>g_current_line_number := g_current_line_number st + 1\<rparr>"
  let ?t = "trim_whitespace_buffer (take MAX_LINE_LENGTH l)"
  have g0: "grows st ?st" by (simp add: grows_def)
  have g1: "grows st (report ERROR_LINE_TOO_LONG ?st)"
    using g0 grows_report by (rule grows_trans)
  have "grows st (check_unexpected_end ?t ?st)"
    using g0 grows_check_unexpected_end by (rule grows_trans)
  then have g2: "grows st (scan_checked_line ?t l (check_unexpected_end ?t ?st))"
    using grows_scan_checked_line by (rule grows_trans)
  show ?thesis
    using g1 g2 by (simp add: scan_line_def Let_def)
qed

lemma grows_fold: "grows st (fold scan_line ls st)"
proof (induction ls arbitrary: st)
  case Nil
  show ?case by (simp add: grows_refl)
next
  case (Cons l ls)
  have "grows st (scan_line l st)" by (rule grows_scan_line)
  then have "grows st (fold scan_line ls (scan_line l st))"
    using Cons.IH by (rule grows_trans)
  then show ?case by simp
qed


lemma report_nonempty: "reported (report e st) \<noteq> []"
  by (simp add: report_def report_error_def)

lemma grows_clean: "grows st st' \<Longrightarrow> reported st' = [] \<Longrightarrow> reported st = []"
  by (simp add: grows_def)

lemma grows_no_macro:
  "grows st st' \<Longrightarrow> g_macros_list_head st' = [] \<Longrightarrow> g_macros_list_head st = []"
  by (simp add: grows_def)

lemma find_called_empty_table:
  "g_macros_list_head st = [] \<Longrightarrow> find_called_macro t st = (None, st)"
  by (simp add: find_called_macro_def split: option.splits prod.splits)

lemma check_unexpected_end_clean:
  assumes "reported (check_unexpected_end t st) = []"
  shows "check_unexpected_end t st = st"
proof (cases "g_in_macro_definition st")
  case True
  then show ?thesis by (simp add: check_unexpected_end_def)
next
  case False
  obtain b s where e: "is_macro_definition_end_copy t st = (b, s)"
    by (cases "is_macro_definition_end_copy t st")
  from assms False e have nb: "\<not> b"
    by (cases b) (simp_all add: check_unexpected_end_def report_nonempty)
  with assms False e have "reported s = []"
    by (simp add: check_unexpected_end_def)
  with end_copy_cases [OF e] have "s = st"
    by (auto simp: report_nonempty)
  with False e nb show ?thesis by (simp add: check_unexpected_end_def)
qed

lemma scan_outside_clean:
  assumes r: "reported (scan_outside_definition t l st) = []"
    and m: "g_macros_list_head (scan_outside_definition t l st) = []"
  shows "scan_outside_definition t l st = write_am l st"
proof -
  have m0: "g_macros_list_head st = []"
    using grows_scan_outside m by (rule grows_no_macro)
  have fc: "find_called_macro t st = (None, st)"
    using m0 by (rule find_called_empty_table)
  obtain r' s' where sc: "is_macro_definition_start_copy t (MAX_LABEL_LENGTH + 1) st = (r', s')"
    by (cases "is_macro_definition_start_copy t (MAX_LABEL_LENGTH + 1) st")
  show ?thesis
  proof (cases r')
    case (Some nm)
    with fc sc m show ?thesis by (simp add: scan_outside_definition_def)
  next
    case None
    with fc sc have eq: "scan_outside_definition t l st = write_am l s'"
      by (simp add: scan_outside_definition_def)
    have "reported s' = []"
      using grows_write_am [of s' l] r unfolding eq by (rule grows_clean)
    with start_copy_cases [OF sc] have "s' = st" by (auto simp: report_nonempty)
    with eq show ?thesis by simp
  qed
qed

lemma scan_line_clean:
  assumes r: "reported (scan_line l st) = []"
    and m: "g_macros_list_head (scan_line l st) = []"
    and d: "\<not> g_in_macro_definition st"
  shows "am_file (scan_line l st) = Some ((case am_file st of None \<Rightarrow> [] | Some w \<Rightarrow> w) @ l)"
    and "\<not> g_in_macro_definition (scan_line l st)"
    and "overall_success (scan_line l st) = overall_success st"
proof -
  let ?st = "st\<lparr>g_current_line_number := g_current_line_number st + 1\<rparr>"
  let ?t = "trim_whitespace_buffer (take MAX_LINE_LENGTH l)"
  let ?s1 = "check_unexpected_end ?t ?st"
  have short: "\<not> (length l > MAX_LINE_LENGTH \<and> l ! MAX_LINE_LENGTH \<noteq> CHR 0x0A
                   \<and> l ! MAX_LINE_LENGTH \<noteq> CHR 0x00)"
  proof
    assume "length l > MAX_LINE_LENGTH \<and> l ! MAX_LINE_LENGTH \<noteq> CHR 0x0A
             \<and> l ! MAX_LINE_LENGTH \<noteq> CHR 0x00"
    then have "scan_line l st = report ERROR_LINE_TOO_LONG ?st"
      by (simp add: scan_line_def Let_def)
    with r show False by (simp add: report_nonempty)
  qed
  then have eq: "scan_line l st = scan_checked_line ?t l ?s1"
    by (auto simp: scan_line_def Let_def)
  have "reported ?s1 = []"
    using grows_scan_checked_line [of ?s1 ?t l] r unfolding eq by (rule grows_clean)
  then have s1: "?s1 = ?st" by (rule check_unexpected_end_clean)
  have eq1: "scan_line l st = scan_checked_line ?t l ?st"
    using eq s1 by simp
  have r0: "reported ?st = []"
    using grows_scan_checked_line [of ?st ?t l] r unfolding eq1 by (rule grows_clean)
  let ?st2 = "?st\<lparr>has_non_empty_lines := True\<rparr>"
  have w: "scan_line l st = write_am l ?st \<or> scan_line l st = write_am l ?st2"
  proof (cases "is_empty_or_comment_line ?t")
    case True
    with d eq1 show ?thesis by (simp add: scan_checked_line_def)
  next
    case False
    with d eq1 have eq2: "scan_line l st = scan_outside_definition ?t l ?st2"
      by (simp add: scan_checked_line_def)
    have "scan_outside_definition ?t l ?st2 = write_am l ?st2"
      using r m unfolding eq2 by (rule scan_outside_clean)
    with eq2 show ?thesis by simp
  qed
  from w r0 d show "am_file (scan_line l st) = Some ((case am_file st of None \<Rightarrow> [] | Some w \<Rightarrow> w) @ l)"
    by (auto simp: write_am_def has_errors_def)
  from w r0 d show "\<not> g_in_macro_definition (scan_line l st)"
    by (auto simp: write_am_def has_errors_def)
  from w r0 d show "overall_success (scan_line l st) = overall_success st"
    by (auto simp: write_am_def has_errors_def)
qed

lemma fold_scan_line_clean:
  assumes "reported (fold scan_line ls st) = []"
    and "g_macros_list_head (fold scan_line ls st) = []"
    and "\<not> g_in_macro_definition st"
    and "ls \<noteq> []"
  shows "am_file (fold scan_line ls st)
           = Some ((case am_file st of None \<Rightarrow> [] | Some w \<Rightarrow> w) @ concat ls)
         \<and> \<not> g_in_macro_definition (fold scan_line ls st)
         \<and> overall_success (fold scan_line ls st) = overall_success st"
  using assms
proof (induction ls arbitrary: st)
  case Nil
  then show ?case by simp
next
  case (Cons l ls)
  let ?s = "scan_line l st"
  have g: "grows ?s (fold scan_line ls ?s)" by (rule grows_fold)
  have r: "reported ?s = []" using g Cons.prems(1) by (simp add: grows_clean)
  have m: "g_macros_list_head ?s = []" using g Cons.prems(2) by (simp add: grows_no_macro)
  note step = scan_line_clean [OF r m Cons.prems(3)]
  show ?case
  proof (cases "ls = []")
    case True
    with step show ?thesis by simp
  next
    case False
    have "am_file (fold scan_line ls ?s)
           = Some ((case am_file ?s of None \<Rightarrow> [] | Some w \<Rightarrow> w) @ concat ls)
         \<and> \<not> g_in_macro_definition (fold scan_line ls ?s)
         \<and> overall_success (fold scan_line ls ?s) = overall_success ?s"
      using Cons.IH [of ?s] Cons.prems(1,2) step(2) False by simp
    with step show ?thesis by simp
  qed
qed

lemma finish_scan_clean:
  assumes "reported (finish_scan st) = []"
  shows "finish_scan st = st" and "\<not> g_in_macro_definition st" and "has_non_empty_lines st"
  using assms
  by (auto simp: finish_scan_def Let_def report_def report_error_def split: if_splits)

lemma initial_fold_nonempty:
  "has_non_empty_lines (fold scan_line ls initial_scan_state) \<Longrightarrow> ls \<noteq> []"
  by (auto simp: initial_scan_state_def)

text \<open>
  The list-based draft on an input without NUL bytes: a run that reports no error and
  leaves the macro list empty succeeds and writes the input byte for byte.
\<close>

lemma identity_copy:
  assumes nul: "CHR 0x00 \<notin> set input"
    and r: "reported (scan_file input) = []"
    and m: "g_macros_list_head (scan_file input) = []"
  shows "process_pre_assembly_for_file_copy input
           = \<lparr>success = True, reports = [], am_left = Written input\<rparr>"
proof -
  let ?f = "fold scan_line (read_lines input) initial_scan_state"
  from r have fin: "scan_file input = ?f" and ne: "has_non_empty_lines ?f"
    using finish_scan_clean [of ?f] by (simp_all add: scan_file_def)
  have ls: "read_lines input \<noteq> []" using ne by (rule initial_fold_nonempty)
  have r': "reported ?f = []" and m': "g_macros_list_head ?f = []"
    using r m fin by simp_all
  have d: "\<not> g_in_macro_definition initial_scan_state"
    by (simp add: initial_scan_state_def)
  from fold_scan_line_clean [OF r' m' d ls]
  have "am_file ?f = Some (concat (read_lines input))" and "overall_success ?f"
    by (simp_all add: initial_scan_state_def)
  then show ?thesis
    using r' fin by (simp add: process_pre_assembly_for_file_copy_def has_errors_def
                               read_lines_concat [OF nul])
qed

text \<open>
  C6 (the code misses the claim). The file \<open>mcrophone\<close>, \<open>add r1,r2\<close> holds no macro
  definition: no line has \<open>mcro\<close> as its first word. pre_assembler.c compares only the
  first four characters of the line with \<open>mcro\<close>, takes the first line as the start of a
  macro named \<open>phone\<close> and swallows the second as its body: it reports nothing, succeeds
  and writes an empty .am file. The list-based draft, which compares the whole first
  word, defines no macro and writes the input unchanged.
\<close>

theorem identity_lost_on_mcro_prefix:
  "is_macro_definition_start (Some (text_lines [''mcrophone''])) (Some [])
       (MAX_LABEL_LENGTH + 1) = (True, Some ''phone'')
   \<and> process_pre_assembly_for_file (text_lines [''mcrophone'', ''add r1,r2''])
     = \<lparr>success = True, reports = [], am_left = Written []\<rparr>
   \<and> g_macros_list_head (scan_file (text_lines [''mcrophone'', ''add r1,r2''])) = []
   \<and> process_pre_assembly_for_file_copy (text_lines [''mcrophone'', ''add r1,r2''])
     = \<lparr>success = True, reports = [],
        am_left = Written (text_lines [''mcrophone'', ''add r1,r2''])\<rparr>"
  by code_simp

subsection \<open>What each implementation reports on every input\<close>

text \<open>
  The list-based draft, on every input: a scan that ends inside a definition reports the
  unclosed definition at the last line number, fails and keeps no output.
\<close>

lemma copy_unclosed_definition_fails:
  assumes "g_in_macro_definition (fold scan_line (read_lines input) initial_scan_state)"
  shows "(g_current_line_number (scan_file input), ERROR_UNCLOSED_MACRO_DEFINITION)
           \<in> set (reports (process_pre_assembly_for_file_copy input))
         \<and> \<not> success (process_pre_assembly_for_file_copy input)
         \<and> am_left (process_pre_assembly_for_file_copy input) \<noteq> Written t"
  using assms
  by (auto simp: process_pre_assembly_for_file_copy_def scan_file_def finish_scan_def Let_def
                 report_def report_error_def has_errors_def split: option.splits)

text \<open>
  The list-based draft, on every input: a run with a report fails and leaves no written
  .am file (the file is deleted when it was opened).
\<close>

lemma copy_reports_discard_output:
  assumes "reports (process_pre_assembly_for_file_copy input) \<noteq> []"
  shows "\<not> success (process_pre_assembly_for_file_copy input)
         \<and> am_left (process_pre_assembly_for_file_copy input) \<noteq> Written t"
  using assms
  by (auto simp: process_pre_assembly_for_file_copy_def Let_def has_errors_def
           split: option.splits)

text \<open>
  pre_assembler.c, on every input: a run with a report fails and never opens the .am
  file; a run without report succeeds and writes it.
\<close>

lemma first_pass_line_flag:
  "has_errors_in_file st = (g_errors st \<noteq> []) \<Longrightarrow>
   has_errors_in_file (first_pass_line l st) = (g_errors (first_pass_line l st) \<noteq> [])"
  by (auto simp: first_pass_line_def Let_def fail_line_def report_error_def
           split: prod.splits option.splits bool.splits)

lemma first_pass_flag:
  "has_errors_in_file st = (g_errors st \<noteq> []) \<Longrightarrow>
   has_errors_in_file (fold first_pass_line ls st)
     = (g_errors (fold first_pass_line ls st) \<noteq> [])"
  by (induction ls arbitrary: st) (simp_all add: first_pass_line_flag)

lemma fputs_none: "(fputs t f = None) = (f = None)"
  by (simp add: fputs_def split: option.splits)

lemma second_pass_line_keeps:
  "g_errors (second_pass_line l st) = g_errors st
   \<and> has_errors_in_file (second_pass_line l st) = has_errors_in_file st
   \<and> (output_file (second_pass_line l st) = None) = (output_file st = None)"
  by (auto simp: second_pass_line_def Let_def fputs_none
           split: prod.splits option.splits bool.splits)

lemma second_pass_keeps:
  "g_errors (fold second_pass_line ls st) = g_errors st
   \<and> has_errors_in_file (fold second_pass_line ls st) = has_errors_in_file st
   \<and> (output_file (fold second_pass_line ls st) = None) = (output_file st = None)"
  by (induction ls arbitrary: st) (simp_all add: second_pass_line_keeps)

lemma two_pass_commit_policy:
  "(reports (process_pre_assembly_for_file input) \<noteq> [] \<longrightarrow>
      \<not> success (process_pre_assembly_for_file input)
      \<and> am_left (process_pre_assembly_for_file input) = Not_Opened)
   \<and> (reports (process_pre_assembly_for_file input) = [] \<longrightarrow>
      success (process_pre_assembly_for_file input)
      \<and> (\<exists>t. am_left (process_pre_assembly_for_file input) = Written t))"
proof -
  let ?s1 = "first_pass input"
  have f: "has_errors_in_file ?s1 = (g_errors ?s1 \<noteq> [])"
    unfolding first_pass_def
    by (rule first_pass_flag) (simp add: initial_pass_state_def)
  let ?s2 = "second_pass input ?s1"
  have k: "g_errors ?s2 = g_errors ?s1" "has_errors_in_file ?s2 = has_errors_in_file ?s1"
    "(output_file ?s2 = None) = has_errors_in_file ?s1"
    unfolding second_pass_def using second_pass_keeps by simp_all
  show ?thesis
    using f k
    by (auto simp: process_pre_assembly_for_file_def Let_def has_errors_def
             split: option.splits)
qed

text \<open>
  pre_assembler.c: a start line whose valid name is already in the table adds exactly one
  ERROR_LABEL_REDEFINITION report and changes neither the table nor the open body.
\<close>

lemma first_pass_redefinition_reported:
  assumes "length l \<le> MAX_LINE_LENGTH + 1"
    and "extract_macro_name l (MAX_LABEL_LENGTH + 1) = Some nm"
    and "is_valid_macro_name nm"
    and "find_macro (g_macros st) nm = Some m"
  shows "g_errors (first_pass_line l st)
           = g_errors st @ [(line_number st + 1, ERROR_LABEL_REDEFINITION)]
         \<and> g_macros (first_pass_line l st) = g_macros st
         \<and> in_macro_definition (first_pass_line l st) = in_macro_definition st
         \<and> body_buffer (first_pass_line l st) = body_buffer st"
  using assms
  by (simp add: first_pass_line_def is_macro_definition_start_def fail_line_def
                report_error_def)

text \<open>
  The list-based draft: a buffer of 81 characters that does not end in a newline is
  reported as too long and nothing else changes.
\<close>

lemma copy_long_line_reported:
  assumes "length l > MAX_LINE_LENGTH" and "l ! MAX_LINE_LENGTH \<noteq> CHR 0x0A"
    and "CHR 0x00 \<notin> set l"
  shows "scan_line l st
           = st\<lparr>g_current_line_number := g_current_line_number st + 1,
                reported := reported st
                  @ [(g_current_line_number st + 1, ERROR_LINE_TOO_LONG)]\<rparr>"
proof -
  from assms(1,3) have "l ! MAX_LINE_LENGTH \<noteq> CHR 0x00"
    by (metis nth_mem)
  with assms(1,2) show ?thesis
    by (simp add: scan_line_def report_def report_error_def)
qed

text \<open>
  The list-based draft: an end line outside a definition is reported as unexpected, is
  not written, and leaves the scanner outside a definition with the same macro list.
\<close>

lemma end_copy_not_start:
  assumes "fst (is_macro_definition_end_copy t st)"
  shows "is_macro_definition_start_copy t n st' = (None, st')"
  using assms
  by (auto simp: is_macro_definition_end_copy_def is_macro_definition_start_copy_def
           split: option.splits prod.splits if_splits)

lemma end_copy_true_state:
  "is_macro_definition_end_copy t st = (True, s) \<Longrightarrow> s = st"
  by (auto simp: is_macro_definition_end_copy_def split: option.splits prod.splits if_splits)

lemma end_copy_state_irrelevant:
  "fst (is_macro_definition_end_copy t st) = fst (is_macro_definition_end_copy t st')"
  by (auto simp: is_macro_definition_end_copy_def split: option.splits prod.splits if_splits)

lemma write_am_after_report:
  "reported st \<noteq> [] \<Longrightarrow> write_am t st = st"
  by (simp add: write_am_def has_errors_def)

lemma find_called_fields:
  "find_called_macro t st = (r, s) \<Longrightarrow>
   am_file s = am_file st \<and> g_in_macro_definition s = g_in_macro_definition st
   \<and> g_macros_list_head s = g_macros_list_head st
   \<and> (\<exists>es. reported s = reported st @ es)"
  by (auto simp: find_called_macro_def report_def report_error_def
           split: option.splits prod.splits if_splits)

lemma copy_unexpected_end_reported:
  assumes d: "\<not> g_in_macro_definition st"
    and short: "length l \<le> MAX_LINE_LENGTH \<or> l ! MAX_LINE_LENGTH = CHR 0x0A"
    and e: "fst (is_macro_definition_end_copy
                  (trim_whitespace_buffer (take MAX_LINE_LENGTH l)) st)"
  shows "(g_current_line_number st + 1, ERROR_UNEXPECTED_MACRO_END)
           \<in> set (reported (scan_line l st))
         \<and> am_file (scan_line l st) = am_file st
         \<and> \<not> g_in_macro_definition (scan_line l st)
         \<and> g_macros_list_head (scan_line l st) = g_macros_list_head st"
proof -
  let ?st = "st\<lparr>g_current_line_number := g_current_line_number st + 1\<rparr>"
  let ?t = "trim_whitespace_buffer (take MAX_LINE_LENGTH l)"
  let ?s1 = "report ERROR_UNEXPECTED_MACRO_END ?st"
  let ?s2 = "?s1\<lparr>has_non_empty_lines := True\<rparr>"
  have e': "fst (is_macro_definition_end_copy ?t ?st)"
    using e end_copy_state_irrelevant [of ?t st ?st] by simp
  then obtain s where "is_macro_definition_end_copy ?t ?st = (True, s)"
    by (cases "is_macro_definition_end_copy ?t ?st") auto
  then have ec: "is_macro_definition_end_copy ?t ?st = (True, ?st)"
    using end_copy_true_state by blast
  have c: "check_unexpected_end ?t ?st = ?s1"
    using d ec by (simp add: check_unexpected_end_def)
  have eq: "scan_line l st = scan_checked_line ?t l ?s1"
    using short c by (auto simp: scan_line_def Let_def)
  have r1: "reported ?s1 = reported st @ [(g_current_line_number st + 1, ERROR_UNEXPECTED_MACRO_END)]"
    by (simp add: report_def report_error_def)
  have d1: "\<not> g_in_macro_definition ?s1" using d by (simp add: report_def)
  show ?thesis
  proof (cases "is_empty_or_comment_line ?t")
    case True
    with d1 eq have "scan_line l st = write_am l ?s1" by (simp add: scan_checked_line_def)
    then have "scan_line l st = ?s1" using r1 by (simp add: write_am_after_report)
    then show ?thesis using d by (simp add: report_def report_error_def)
  next
    case False
    with d1 eq have eq2: "scan_line l st = scan_outside_definition ?t l ?s2"
      by (simp add: scan_checked_line_def)
    obtain r s where fc: "find_called_macro ?t ?s2 = (r, s)"
      by (cases "find_called_macro ?t ?s2")
    from find_called_fields [OF fc] r1 obtain es where
      fs: "am_file s = am_file st" "\<not> g_in_macro_definition s"
          "g_macros_list_head s = g_macros_list_head st"
          "reported s = (reported st @ [(g_current_line_number st + 1, ERROR_UNEXPECTED_MACRO_END)]) @ es"
      using d by (auto simp: report_def)
    then have ne: "reported s \<noteq> []" by simp
    have sc: "is_macro_definition_start_copy ?t (MAX_LABEL_LENGTH + 1) s = (None, s)"
      using e by (rule end_copy_not_start)
    have "scan_outside_definition ?t l ?s2 = s"
      using fc sc ne by (cases r) (simp_all add: scan_outside_definition_def write_am_after_report)
    with eq2 fs show ?thesis by simp
  qed
qed

end
